theory Spec2Isabelle
  imports Complex_Main "HOL-Library.Multiset"
begin

section \<open>Numbers and the normalized data model\<close>

text \<open>
  The program is TypeScript/JavaScript. Its \<^verbatim>\<open>number\<close> is modelled by \<^typ>\<open>real\<close>: the
  arithmetic of the indicator engine is taken exactly, without rounding, infinities or NaN.
  The only places where the code can produce NaN from finite input are a division by a
  period of \<open>0\<close> and a read beyond the end of an array; every theorem below that depends on
  such a value carries the hypothesis that excludes it (the tool layer passes whole-number
  periods of at least \<open>2\<close>, and a fast period smaller than the slow one).
  An entry of an array that is \<^verbatim>\<open>null\<close> is \<^const>\<open>None\<close>.
\<close>

record NormalizedCandle =
  timestamp :: real
  c_open :: real
  c_high :: real
  c_low :: real
  close :: real
  volume :: real

record NormalizedRsiPoint =
  rsi_timestamp :: real
  rsi_value :: real

record NormalizedMacdPoint =
  macd_timestamp :: real
  macd :: real
  signal :: real
  histogram :: real

section \<open>Indicator engine (\<^verbatim>\<open>lib/indicators\<close>)\<close>

subsection \<open>\<^verbatim>\<open>ema\<close>\<close>

text \<open>
  The \<^verbatim>\<open>for\<close> loop of \<^verbatim>\<open>ema\<close>: \<open>i\<close> runs from \<open>period\<close> to the end of \<open>values\<close>, the
  running value \<open>previous\<close> is updated and stored at \<open>output[i]\<close>.
\<close>

function ema_loop :: "real list \<Rightarrow> real \<Rightarrow> nat \<Rightarrow> real \<Rightarrow> real option list \<Rightarrow> real option list" where
  "ema_loop values multiplier i previous output =
     (if i < length values then
        (let previous' = (values ! i - previous) * multiplier + previous
         in ema_loop values multiplier (i + 1) previous' (output[i := Some previous']))
      else output)"
  by pat_completeness auto
termination
  by (relation "measure (\<lambda>(values, multiplier, i, previous, output). length values - i)") auto

declare ema_loop.simps [simp del]

text \<open>
  \<^verbatim>\<open>values.slice(0, period).reduce((sum, item) => sum + item, 0)\<close> is a left fold from \<open>0\<close>.
  The store \<^verbatim>\<open>output[period - 1] = previous\<close> writes index \<open>-1\<close> when \<open>period\<close> is \<open>0\<close>, which
  changes no element of a JavaScript array.
\<close>

definition ema :: "real list \<Rightarrow> nat \<Rightarrow> real option list" where
  "ema values period =
     (if length values < period then []
      else
        (let multiplier = 2 / (real period + 1);
             output = replicate (length values) None;
             previous = foldl (+) 0 (take period values) / real period;
             output = (if period = 0 then output else output[period - 1 := Some previous])
         in ema_loop values multiplier period previous output))"

subsection \<open>\<^verbatim>\<open>calculateRsiFromCandles\<close>\<close>

text \<open>
  The first loop fills \<open>gains\<close> and \<open>losses\<close> from the consecutive differences of the closes
  (\<^verbatim>\<open>push\<close> appends at the end).
\<close>

function deltas_loop :: "real list \<Rightarrow> nat \<Rightarrow> real list \<Rightarrow> real list \<Rightarrow> real list \<times> real list" where
  "deltas_loop closes i gains losses =
     (if i < length closes then
        (let delta = closes ! i - closes ! (i - 1)
         in deltas_loop closes (i + 1) (gains @ [max delta 0]) (losses @ [max (- delta) 0]))
      else (gains, losses))"
  by pat_completeness auto
termination
  by (relation "measure (\<lambda>(closes, i, gains, losses). length closes - i)") auto

declare deltas_loop.simps [simp del]

text \<open>
  The second loop carries the two running averages and the points emitted so far; the
  model returns all three. The read \<^verbatim>\<open>candles[i + 1]\<close> is always in range, since \<open>gains\<close> has
  one entry less than \<open>candles\<close>.
\<close>

function rsi_loop :: "NormalizedCandle list \<Rightarrow> nat \<Rightarrow> real list \<Rightarrow> real list \<Rightarrow> nat \<Rightarrow>
    real \<Rightarrow> real \<Rightarrow> NormalizedRsiPoint list \<Rightarrow> real \<times> real \<times> NormalizedRsiPoint list" where
  "rsi_loop candles period gains losses i avgGain avgLoss points =
     (if i < length gains then
        (let avgGain' = (avgGain * (real period - 1) + gains ! i) / real period;
             avgLoss' = (avgLoss * (real period - 1) + losses ! i) / real period;
             rs = (if avgLoss' = 0 then 100 else avgGain' / avgLoss');
             rsi = (if avgLoss' = 0 then 100 else 100 - 100 / (1 + rs))
         in rsi_loop candles period gains losses (i + 1) avgGain' avgLoss'
              (points @ [\<lparr>rsi_timestamp = timestamp (candles ! (i + 1)), rsi_value = rsi\<rparr>]))
      else (avgGain, avgLoss, points))"
  by pat_completeness auto
termination
  by (relation "measure (\<lambda>(candles, period, gains, losses, i, avgGain, avgLoss, points).
        length gains - i)") auto

declare rsi_loop.simps [simp del]

definition rsi_run :: "NormalizedCandle list \<Rightarrow> nat \<Rightarrow> real \<times> real \<times> NormalizedRsiPoint list" where
  "rsi_run candles period =
     (let closes = map close candles;
          (gains, losses) = deltas_loop closes 1 [] [];
          avgGain = foldl (+) 0 (take period gains) / real period;
          avgLoss = foldl (+) 0 (take period losses) / real period
      in rsi_loop candles period gains losses period avgGain avgLoss [])"

definition calculateRsiFromCandles :: "NormalizedCandle list \<Rightarrow> nat \<Rightarrow> NormalizedRsiPoint list" where
  "calculateRsiFromCandles candles period =
     (if length candles \<le> period then []
      else (case rsi_run candles period of (avgGain, avgLoss, points) \<Rightarrow> points))"

subsection \<open>\<^verbatim>\<open>calculateMacdFromCandles\<close>\<close>

text \<open>
  A read \<^verbatim>\<open>xs[i]\<close> of an array of numbers and nulls. Beyond the end JavaScript gives
  \<^verbatim>\<open>undefined\<close>, which the model does not tell from \<^verbatim>\<open>null\<close>. The emission loop
  treats the two alike (\<^verbatim>\<open>signal === null || signal === undefined\<close>). In the MACD line a
  read beyond the end only happens when \<open>fastPeriod\<close> exceeds the number of candles (then
  \<^verbatim>\<open>ema\<close> returns \<^verbatim>\<open>[]\<close> and the code subtracts from \<^verbatim>\<open>undefined\<close>, which is NaN); the
  theorem about the MACD points excludes that case.
\<close>

definition js_index :: "'a option list \<Rightarrow> nat \<Rightarrow> 'a option" where
  "js_index xs i = (if i < length xs then xs ! i else None)"

definition macd_entry :: "real option list \<Rightarrow> real option list \<Rightarrow> nat \<Rightarrow> real option" where
  "macd_entry fast slow index =
     (case (js_index fast index, js_index slow index) of
        (Some f, Some s) \<Rightarrow> Some (f - s)
      | _ \<Rightarrow> None)"

function macd_loop :: "NormalizedCandle list \<Rightarrow> real option list \<Rightarrow> real option list \<Rightarrow> nat \<Rightarrow> nat \<Rightarrow>
    NormalizedMacdPoint list \<Rightarrow> NormalizedMacdPoint list" where
  "macd_loop candles macdLine signalRaw i signalCursor output =
     (if i < length macdLine then
        (case macdLine ! i of
           None \<Rightarrow> macd_loop candles macdLine signalRaw (i + 1) signalCursor output
         | Some m \<Rightarrow>
             (case js_index signalRaw signalCursor of
                None \<Rightarrow> macd_loop candles macdLine signalRaw (i + 1) (signalCursor + 1) output
              | Some sg \<Rightarrow>
                  macd_loop candles macdLine signalRaw (i + 1) (signalCursor + 1)
                    (output @ [\<lparr>macd_timestamp = timestamp (candles ! i), macd = m,
                                signal = sg, histogram = m - sg\<rparr>])))
      else output)"
  by pat_completeness auto
termination
  by (relation "measure (\<lambda>(candles, macdLine, signalRaw, i, signalCursor, output).
        length macdLine - i)") auto

declare macd_loop.simps [simp del]

definition calculateMacdFromCandles ::
    "NormalizedCandle list \<Rightarrow> nat \<Rightarrow> nat \<Rightarrow> nat \<Rightarrow> NormalizedMacdPoint list" where
  "calculateMacdFromCandles candles fastPeriod slowPeriod signalPeriod =
     (if length candles < slowPeriod + signalPeriod then []
      else
        (let closes = map close candles;
             fast = ema closes fastPeriod;
             slow = ema closes slowPeriod;
             macdLine = map (macd_entry fast slow) [0..<length closes];
             cleanMacd = map the (filter (\<lambda>v. v \<noteq> None) macdLine);
             signalRaw = ema cleanMacd signalPeriod
         in if signalRaw = [] then []
            else macd_loop candles macdLine signalRaw 0 0 []))"

section \<open>Provider errors and the fallback orchestrator\<close>

datatype ErrorCode = AUTH | RATE_LIMIT | NOT_FOUND | UPSTREAM | BAD_RESPONSE | NETWORK

datatype ProviderName = finnhub | alphavantage

record ProviderError =
  provider :: ProviderName
  code :: ErrorCode
  message :: string
  status :: "nat option"

text \<open>
  \<^verbatim>\<open>executeWithFallback<T>\<close> is generic in the type of the data, and tests the data with
  \<^verbatim>\<open>if (data)\<close>, which is JavaScript's \<open>ToBoolean\<close>. The values a fetcher can resolve to are
  therefore modelled with their kind: a boolean, a number, a string, or an object (arrays
  included) carrying a payload of type \<open>'a\<close>. \<open>ToBoolean\<close> is false for \<^verbatim>\<open>false\<close>, \<open>0\<close> and
  the empty string, and true for every object and array, the empty array included.
  \<^verbatim>\<open>null\<close> and \<^verbatim>\<open>undefined\<close> are \<^const>\<open>None\<close> and are falsy.
\<close>

datatype 'a js_value = JsBoolean bool | JsNumber real | JsString string | JsObject 'a

fun ToBoolean :: "'a js_value \<Rightarrow> bool" where
  "ToBoolean (JsBoolean b) = b"
| "ToBoolean (JsNumber x) = (x \<noteq> 0)"
| "ToBoolean (JsString s) = (s \<noteq> [])"
| "ToBoolean (JsObject v) = True"

definition truthy :: "'a js_value option \<Rightarrow> bool" where
  "truthy d = (case d of None \<Rightarrow> False | Some v \<Rightarrow> ToBoolean v)"

text \<open>
  What awaiting a fetcher can give: a value or \<^verbatim>\<open>null\<close>, a thrown \<^verbatim>\<open>ProviderError\<close>, or
  some other thrown value. A fetcher is a zero-argument function with effects: it takes
  the state of the world and returns its outcome with the new state, so that a fetcher
  that was not invoked leaves no trace.
\<close>

datatype 'a outcome = Resolves "'a option" | Throws ProviderError | ThrowsOther

type_synonym ('a, 's) fetcher = "'s \<Rightarrow> 'a outcome \<times> 's"

record 'a fallback_result =
  data :: "'a option"
  source :: "string option"
  warning :: "string option"
  error :: "string option"

definition toUserErrorMessage :: "string \<Rightarrow> ProviderError list \<Rightarrow> bool \<Rightarrow> string" where
  "toUserErrorMessage tool errors hadNoData =
     (let hasRateLimit = list_ex (\<lambda>e. code e = RATE_LIMIT) errors;
          hasAuth = list_ex (\<lambda>e. code e = AUTH) errors;
          hasNotFound = list_ex (\<lambda>e. code e = NOT_FOUND) errors
      in if hasRateLimit then
           tool @ '' failed: provider rate limit reached. Try again shortly or add higher-tier API keys.''
         else if hasAuth then
           tool @ '' failed: missing or invalid API key. Check FINNHUB_API_KEY and ALPHAVANTAGE_API_KEY.''
         else if hasNotFound \<or> hadNoData then
           tool @ '' failed: symbol may be unsupported or unavailable for this request window.''
         else
           tool @ '' failed due to provider/network errors. Try again in a moment.'')"

text \<open>
  The second half of \<^verbatim>\<open>executeWithFallback\<close>: the fallback attempt and the terminal
  return, entered with the errors recorded so far and the \<open>primaryNoData\<close> flag.
\<close>

definition fallback_attempt :: "string \<Rightarrow> ('a js_value, 's) fetcher option \<Rightarrow> ProviderError list \<Rightarrow>
    bool \<Rightarrow> 's \<Rightarrow> 'a js_value fallback_result \<times> 's" where
  "fallback_attempt toolName fallback errors primaryNoData s =
     (case fallback of
        None \<Rightarrow>
          (\<lparr>data = None, source = None, warning = None,
            error = Some (toUserErrorMessage toolName errors primaryNoData)\<rparr>, s)
      | Some f \<Rightarrow>
          (case f s of
             (Resolves d, s') \<Rightarrow>
               if truthy d then
                 (\<lparr>data = d, source = Some ''Alpha Vantage'',
                   warning =
                     (if errors \<noteq> [] then Some ''Used fallback provider due to primary provider error.''
                      else if primaryNoData then
                        Some ''Used fallback provider because primary returned no data.''
                      else None),
                   error = None\<rparr>, s')
               else
                 (\<lparr>data = None, source = None, warning = None,
                   error = Some (toUserErrorMessage toolName errors primaryNoData)\<rparr>, s')
           | (Throws e, s') \<Rightarrow>
               (\<lparr>data = None, source = None, warning = None,
                 error = Some (toUserErrorMessage toolName (errors @ [e]) primaryNoData)\<rparr>, s')
           | (ThrowsOther, s') \<Rightarrow>
               (\<lparr>data = None, source = None, warning = None,
                 error = Some (toUserErrorMessage toolName errors primaryNoData)\<rparr>, s')))"

definition executeWithFallback :: "string \<Rightarrow> ('a js_value, 's) fetcher option \<Rightarrow>
    ('a js_value, 's) fetcher option \<Rightarrow> 's \<Rightarrow> 'a js_value fallback_result \<times> 's" where
  "executeWithFallback toolName primary fallback s =
     (case primary of
        None \<Rightarrow> fallback_attempt toolName fallback [] False s
      | Some f \<Rightarrow>
          (case f s of
             (Resolves d, s') \<Rightarrow>
               if truthy d then
                 (\<lparr>data = d, source = Some ''Finnhub'', warning = None, error = None\<rparr>, s')
               else fallback_attempt toolName fallback [] True s'
           | (Throws e, s') \<Rightarrow> fallback_attempt toolName fallback [e] False s'
           | (ThrowsOther, s') \<Rightarrow> fallback_attempt toolName fallback [] False s'))"

text \<open>
  Vocabulary for the statements about the orchestrator: the \<^verbatim>\<open>ProviderError\<close> that an
  attempt throws (none when the fetcher is not configured, resolves, or throws something
  else), whether an attempt resolves to a falsy value (what sets \<open>primaryNoData\<close> at the
  primary attempt), and the state after an attempt.
\<close>

definition thrown :: "('a, 's) fetcher option \<Rightarrow> 's \<Rightarrow> ProviderError list" where
  "thrown fetcher s =
     (case fetcher of None \<Rightarrow> []
      | Some f \<Rightarrow> (case fst (f s) of Throws e \<Rightarrow> [e] | _ \<Rightarrow> []))"

definition resolves_no_data :: "('a js_value, 's) fetcher option \<Rightarrow> 's \<Rightarrow> bool" where
  "resolves_no_data fetcher s =
     (case fetcher of None \<Rightarrow> False
      | Some f \<Rightarrow> (case fst (f s) of Resolves d \<Rightarrow> \<not> truthy d | _ \<Rightarrow> False))"

definition state_after :: "('a, 's) fetcher option \<Rightarrow> 's \<Rightarrow> 's" where
  "state_after fetcher s = (case fetcher of None \<Rightarrow> s | Some f \<Rightarrow> snd (f s))"

section \<open>The Finnhub adapter\<close>

record NormalizedQuote =
  symbol :: string
  price :: real
  change :: real
  percentChange :: real
  q_high :: real
  q_low :: real
  q_open :: real
  previousClose :: real
  q_timestamp :: "real option"
  q_source :: ProviderName


record finnhub_candles =
  candle_c :: "real list option"
  candle_h :: "real list option"
  candle_l :: "real list option"
  candle_o :: "real list option"
  candle_t :: "real list option"
  candle_v :: "real list option"
  candle_s :: "string option"

record finnhub_macd =
  ind_s :: "string option"
  ind_t :: "real list option"
  ind_macd :: "real list option"
  ind_signal :: "real list option"
  ind_histogram :: "real list option"

text \<open>\<^verbatim>\<open>x ?? y\<close> and the optional read \<^verbatim>\<open>arr?.[index]\<close>.\<close>

definition nullish :: "'a option \<Rightarrow> 'a \<Rightarrow> 'a" where
  "nullish x y = (case x of None \<Rightarrow> y | Some v \<Rightarrow> v)"

definition opt_index :: "'a list option \<Rightarrow> nat \<Rightarrow> 'a option" where
  "opt_index arr index =
     (case arr of None \<Rightarrow> None
      | Some xs \<Rightarrow> (if index < length xs then Some (xs ! index) else None))"


datatype Interval = Int_1 | Int_5 | Int_15 | Int_30 | Int_60 | Int_D | Int_W | Int_M

text \<open>
  \<open>symbol\<close>, \<open>interval\<close>, \<open>from\<close> and \<open>to\<close> go into the query of the request only; the
  normalization of the payload does not read them.
\<close>

definition finnhub_getCandles :: "string \<Rightarrow> Interval \<Rightarrow> real \<Rightarrow> real \<Rightarrow> finnhub_candles \<Rightarrow>
    NormalizedCandle list option" where
  "finnhub_getCandles sy interval t_from t_to d =
     (if candle_s d = None \<or> candle_s d = Some [] \<or> candle_s d \<noteq> Some ''ok''
         \<or> candle_t d = None \<or> candle_t d = Some [] then None
      else Some (map (\<lambda>(index, ts).
               \<lparr>timestamp = ts,
                c_open = nullish (opt_index (candle_o d) index) 0,
                c_high = nullish (opt_index (candle_h d) index) 0,
                c_low = nullish (opt_index (candle_l d) index) 0,
                close = nullish (opt_index (candle_c d) index) 0,
                volume = nullish (opt_index (candle_v d) index) 0\<rparr>)
             (enumerate 0 (the (candle_t d)))))"

text \<open>
  \<^verbatim>\<open>getMacd\<close> keeps the points whose \<open>macd\<close> and \<open>signal\<close> are numbers; the histogram is read
  from the payload.
\<close>

definition finnhub_getMacd :: "finnhub_macd \<Rightarrow> NormalizedMacdPoint list option" where
  "finnhub_getMacd d =
     (if ind_s d \<noteq> Some ''ok'' \<or> ind_t d = None \<or> ind_t d = Some []
         \<or> ind_macd d = None \<or> ind_macd d = Some []
         \<or> ind_signal d = None \<or> ind_signal d = Some [] then None
      else Some (concat (map (\<lambda>(index, ts).
               (case (opt_index (ind_macd d) index, opt_index (ind_signal d) index) of
                  (Some m, Some sg) \<Rightarrow>
                    [\<lparr>macd_timestamp = ts, macd = m, signal = sg,
                      histogram = nullish (opt_index (ind_histogram d) index) 0\<rparr>]
                | _ \<Rightarrow> []))
             (enumerate 0 (the (ind_t d))))))"

section \<open>The Alpha Vantage adapter\<close>

text \<open>
  Two built-ins of JavaScript are parameters of the model:
  \<^item> \<open>jsNumber s\<close> is \<^verbatim>\<open>Number(s)\<close> when that is finite, and \<^const>\<open>None\<close> when it is NaN
    or infinite (the test \<^verbatim>\<open>Number.isFinite(parsed)\<close>);
  \<^item> \<open>jsTime s\<close> is \<^verbatim>\<open>new Date(s).getTime()\<close>, in milliseconds, and \<^const>\<open>None\<close> when the
    date is invalid (NaN).
\<close>

definition toNumber :: "(string \<Rightarrow> real option) \<Rightarrow> string option \<Rightarrow> real option" where
  "toNumber jsNumber v =
     (case v of None \<Rightarrow> None
      | Some s \<Rightarrow> (if s = [] then None else jsNumber s))"

definition parseSeriesEntry :: "(string \<Rightarrow> real option) \<Rightarrow> (string \<Rightarrow> real option) \<Rightarrow>
    string \<Rightarrow> (string \<rightharpoonup> string) \<Rightarrow> NormalizedCandle option" where
  "parseSeriesEntry jsTime jsNumber ts vals =
     (case jsTime ts of
        None \<Rightarrow> None
      | Some ms \<Rightarrow>
          (let seconds = real_of_int \<lfloor>ms / 1000\<rfloor>;
               op = toNumber jsNumber (vals ''1. open'');
               hi = toNumber jsNumber (vals ''2. high'');
               lo = toNumber jsNumber (vals ''3. low'');
               cl = toNumber jsNumber (vals ''4. close'');
               vol = (case toNumber jsNumber (vals ''5. volume'') of
                        Some v \<Rightarrow> v
                      | None \<Rightarrow> nullish (toNumber jsNumber (vals ''6. volume'')) 0)
           in (case (op, hi, lo, cl) of
                 (Some op', Some hi', Some lo', Some cl') \<Rightarrow>
                   Some \<lparr>timestamp = seconds, c_open = op', c_high = hi', c_low = lo',
                         close = cl', volume = vol\<rparr>
               | _ \<Rightarrow> None)))"

definition ALPHA_INTERVAL :: "Interval \<Rightarrow> string" where
  "ALPHA_INTERVAL interval =
     (case interval of
        Int_1 \<Rightarrow> ''1min'' | Int_5 \<Rightarrow> ''5min'' | Int_15 \<Rightarrow> ''15min'' | Int_30 \<Rightarrow> ''30min''
      | Int_60 \<Rightarrow> ''60min'' | Int_D \<Rightarrow> ''daily'' | Int_W \<Rightarrow> ''weekly'' | Int_M \<Rightarrow> ''monthly'')"

definition seriesKey :: "Interval \<Rightarrow> string" where
  "seriesKey interval =
     (if interval \<in> {Int_1, Int_5, Int_15, Int_30, Int_60} then
        ''Time Series ('' @ ALPHA_INTERVAL interval @ '')''
      else if interval = Int_D then ''Time Series (Daily)''
      else if interval = Int_W then ''Weekly Time Series''
      else ''Monthly Time Series'')"

text \<open>
  A time series is the list \<^verbatim>\<open>Object.entries(series)\<close>: the keys of the upstream map with
  their values, in the order of the object. \<^verbatim>\<open>Array.prototype.sort\<close> is stable, and
  with the comparator \<^verbatim>\<open>a.timestamp - b.timestamp\<close> on finite timestamps its result is the
  stable sort by timestamp, \<^const>\<open>sort_key\<close>.
\<close>

type_synonym series = "(string \<times> (string \<rightharpoonup> string)) list"

definition alpha_getCandles :: "(string \<Rightarrow> real option) \<Rightarrow> (string \<Rightarrow> real option) \<Rightarrow>
    string \<Rightarrow> Interval \<Rightarrow> real \<Rightarrow> real \<Rightarrow> (string \<rightharpoonup> series) \<Rightarrow> NormalizedCandle list option" where
  "alpha_getCandles jsTime jsNumber sy interval t_from t_to d =
     (case d (seriesKey interval) of
        None \<Rightarrow> None
      | Some entries \<Rightarrow>
          Some (sort_key timestamp
            (filter (\<lambda>item. timestamp item \<ge> t_from \<and> timestamp item \<le> t_to)
              (map the
                (filter (\<lambda>item. item \<noteq> None)
                  (map (\<lambda>(ts, vals). parseSeriesEntry jsTime jsNumber ts vals) entries))))))"



section \<open>Properties of the indicator engine\<close>

lemma foldl_plus_sum_list: "foldl (+) a xs = a + sum_list xs"
  for a :: real
  by (induction xs arbitrary: a) simp_all

lemma length_ema_loop: "length (ema_loop vs m i p out) = length out"
proof (induction vs m i p out rule: ema_loop.induct)
  case (1 vs m i p out)
  show ?case
  proof (cases "i < length vs")
    case True
    with "1.IH" [OF True refl] show ?thesis
      by (subst ema_loop.simps) (simp add: Let_def)
  next
    case False
    then show ?thesis by (subst ema_loop.simps) simp
  qed
qed

lemma ema_loop_below: "j < i \<Longrightarrow> ema_loop vs m i p out ! j = out ! j"
proof (induction vs m i p out rule: ema_loop.induct)
  case (1 vs m i p out)
  show ?case
  proof (cases "i < length vs")
    case True
    from "1.prems" have "j < i + 1" by simp
    with "1.IH" [OF True refl] "1.prems" True show ?thesis
      by (subst ema_loop.simps) (simp add: Let_def)
  next
    case False
    then show ?thesis by (subst ema_loop.simps) simp
  qed
qed

lemma ema_loop_step:
  assumes "0 < i" "out ! (i - 1) = Some p" "length out = length vs"
    and "i \<le> j" "j < length vs"
  shows "\<exists>q. ema_loop vs m i p out ! (j - 1) = Some q \<and>
             ema_loop vs m i p out ! j = Some ((vs ! j - q) * m + q)"
  using assms
proof (induction vs m i p out rule: ema_loop.induct)
  case (1 vs m i p out)
  from "1.prems" have lt: "i < length vs" by simp
  define p' where "p' = (vs ! i - p) * m + p"
  define out' where "out' = out[i := Some p']"
  have unfold: "ema_loop vs m i p out = ema_loop vs m (i + 1) p' out'"
    using lt by (subst ema_loop.simps) (simp add: Let_def p'_def out'_def)
  show ?case
  proof (cases "j = i")
    case True
    have a: "ema_loop vs m (i + 1) p' out' ! (i - 1) = Some p"
      using "1.prems" lt by (simp add: ema_loop_below out'_def)
    have b: "ema_loop vs m (i + 1) p' out' ! i = Some p'"
      using "1.prems" lt by (simp add: ema_loop_below out'_def)
    show ?thesis
      unfolding unfold True using a b by (simp add: p'_def)
  next
    case False
    with "1.prems" have "i + 1 \<le> j" by simp
    moreover have "out' ! (i + 1 - 1) = Some p'"
      using "1.prems" lt by (simp add: out'_def)
    moreover have "length out' = length vs"
      using "1.prems" by (simp add: out'_def)
    ultimately show ?thesis
      unfolding unfold
      using "1.IH" [OF lt p'_def] "1.prems"
      by (simp add: out'_def p'_def)
  qed
qed

subsection \<open>Exponential moving average\<close>

text \<open>
  C4. When \<open>values\<close> is shorter than \<open>period\<close>, \<open>ema\<close> returns the empty sequence. When it
  has at least \<open>period\<close> entries (\<open>period\<close> a positive whole number), the result has the
  length of the input, its first \<open>period - 1\<close> entries are absent, the entry at index
  \<open>period - 1\<close> is the mean of the first \<open>period\<close> values, and every later entry is
  \<open>previous + (current - previous) * 2 / (period + 1)\<close>. For period 3 and values
  \<open>[1, 2, 3, 4, 5]\<close> the result is \<open>[null, null, 2, 3, 4]\<close>.
\<close>

theorem ema_spec:
  "(length vs < period \<longrightarrow> ema vs period = []) \<and>
   (0 < period \<and> period \<le> length vs \<longrightarrow>
      length (ema vs period) = length vs \<and>
      (\<forall>i < period - 1. ema vs period ! i = None) \<and>
      ema vs period ! (period - 1) = Some (sum_list (take period vs) / real period) \<and>
      (\<forall>i. period \<le> i \<and> i < length vs \<longrightarrow>
         (\<exists>prev. ema vs period ! (i - 1) = Some prev \<and>
            ema vs period ! i = Some (prev + (vs ! i - prev) * (2 / (real period + 1)))))) \<and>
   ema [1, 2, 3, 4, 5] 3 = [None, None, Some 2, Some 3, Some 4]"
proof (intro conjI impI)
  show "length vs < period \<Longrightarrow> ema vs period = []"
    by (simp add: ema_def)
next
  assume h: "0 < period \<and> period \<le> length vs"
  define m where "m = 2 / (real period + 1)"
  define p where "p = sum_list (take period vs) / real period"
  define out where "out = (replicate (length vs) None)[period - 1 := Some p]"
  have e: "ema vs period = ema_loop vs m period p out"
    using h by (simp add: ema_def Let_def m_def p_def out_def foldl_plus_sum_list)
  have len: "length out = length vs" by (simp add: out_def)
  show "length (ema vs period) = length vs"
    by (simp add: e length_ema_loop len)
  show "\<forall>i < period - 1. ema vs period ! i = None"
    using h by (auto simp: e ema_loop_below out_def)
  have at: "out ! (period - 1) = Some p"
  proof -
    from h have "period - 1 < length vs" by arith
    then have "period - 1 < length (replicate (length vs) (None :: real option))" by simp
    then show ?thesis unfolding out_def by (rule nth_list_update_eq)
  qed
  show "ema vs period ! (period - 1) = Some (sum_list (take period vs) / real period)"
    using h at by (simp add: e ema_loop_below p_def)
  show "\<forall>i. period \<le> i \<and> i < length vs \<longrightarrow>
         (\<exists>prev. ema vs period ! (i - 1) = Some prev \<and>
            ema vs period ! i = Some (prev + (vs ! i - prev) * (2 / (real period + 1))))"
  proof (intro allI impI)
    fix i assume i: "period \<le> i \<and> i < length vs"
    from ema_loop_step [of period out p vs i m] h at len i
    obtain q where "ema_loop vs m period p out ! (i - 1) = Some q"
      and "ema_loop vs m period p out ! i = Some ((vs ! i - q) * m + q)"
      by auto
    then show "\<exists>prev. ema vs period ! (i - 1) = Some prev \<and>
            ema vs period ! i = Some (prev + (vs ! i - prev) * (2 / (real period + 1)))"
      by (simp add: e m_def add.commute)
  qed
next
  show "ema [1, 2, 3, 4, 5] 3 = [None, None, Some 2, Some 3, Some 4]"
    by (simp add: ema_def ema_loop.simps Let_def)
qed

text \<open>
  The two hypotheses at concrete inputs: one value with period 2, and the values
  \<open>[4, 8, 6]\<close> with period 2 (seed \<open>6\<close>, then \<open>6 + (6 - 6) * 2 / 3 = 6\<close>).
\<close>

theorem ema_spec_witness:
  "ema [7] 2 = [] \<and> length (ema [4, 8, 6] 2) = 3 \<and> ema [4, 8, 6] 2 ! 0 = None
     \<and> ema [4, 8, 6] 2 ! 1 = Some 6
     \<and> ema [4, 8, 6] 2 ! 2 = Some 6"
  using ema_spec [of "[7]" 2] ema_spec [of "[4, 8, 6]" 2]
  by auto

subsection \<open>Relative strength index\<close>

lemma deltas_loop_eq:
  "deltas_loop closes i g l =
     (g @ map (\<lambda>j. max (closes ! j - closes ! (j - 1)) 0) [i..<length closes],
      l @ map (\<lambda>j. max (- (closes ! j - closes ! (j - 1))) 0) [i..<length closes])"
proof (induction closes i g l rule: deltas_loop.induct)
  case (1 closes i g l)
  show ?case
  proof (cases "i < length closes")
    case True
    then have "[i..<length closes] = i # [i + 1..<length closes]"
      by (simp add: upt_conv_Cons)
    with "1.IH" [OF True refl] True show ?thesis
      by (subst deltas_loop.simps) (simp add: Let_def)
  next
    case False
    then show ?thesis by (subst deltas_loop.simps) simp
  qed
qed

lemma rsi_loop_points:
  "\<exists>new. snd (snd (rsi_loop c p g l i ag al pts)) = pts @ new \<and> length new = length g - i"
proof (induction c p g l i ag al pts rule: rsi_loop.induct)
  case (1 c p g l i ag al pts)
  show ?case
  proof (cases "i < length g")
    case True
    from "1.IH" [OF True refl refl refl refl] obtain new where
      "snd (snd (rsi_loop c p g l (i + 1) ((ag * (real p - 1) + g ! i) / real p)
          ((al * (real p - 1) + l ! i) / real p)
          (pts @ [\<lparr>rsi_timestamp = timestamp (c ! (i + 1)),
                 rsi_value =
                   (if (al * (real p - 1) + l ! i) / real p = 0 then 100
                    else 100 - 100 / (1 + (if (al * (real p - 1) + l ! i) / real p = 0 then 100
                       else ((ag * (real p - 1) + g ! i) / real p) /
                            ((al * (real p - 1) + l ! i) / real p))))\<rparr>]))) =
        (pts @ [\<lparr>rsi_timestamp = timestamp (c ! (i + 1)),
                 rsi_value =
                   (if (al * (real p - 1) + l ! i) / real p = 0 then 100
                    else 100 - 100 / (1 + (if (al * (real p - 1) + l ! i) / real p = 0 then 100
                       else ((ag * (real p - 1) + g ! i) / real p) /
                            ((al * (real p - 1) + l ! i) / real p))))\<rparr>]) @ new"
      and "length new = length g - (i + 1)"
      by blast
    with True show ?thesis
      by (subst rsi_loop.simps) (auto simp: Let_def)
  next
    case False
    then show ?thesis by (subst rsi_loop.simps) simp
  qed
qed

lemma rsi_loop_unfold:
  "i < length g \<Longrightarrow>
   rsi_loop c p g l i ag al pts =
     rsi_loop c p g l (i + 1) ((ag * (real p - 1) + g ! i) / real p)
       ((al * (real p - 1) + l ! i) / real p)
       (pts @ [\<lparr>rsi_timestamp = timestamp (c ! (i + 1)),
                 rsi_value =
                   (if (al * (real p - 1) + l ! i) / real p = 0 then 100
                    else 100 - 100 / (1 + (if (al * (real p - 1) + l ! i) / real p = 0 then 100
                       else ((ag * (real p - 1) + g ! i) / real p) /
                            ((al * (real p - 1) + l ! i) / real p))))\<rparr>])"
  by (subst rsi_loop.simps) (simp only: Let_def if_True)

lemma rsi_loop_done: "\<not> i < length g \<Longrightarrow> rsi_loop c p g l i ag al pts = (ag, al, pts)"
  by (subst rsi_loop.simps) simp

lemma rsi_loop_zero_loss:
  assumes "al = 0" "k < length g - i" "\<forall>j. i \<le> j \<and> j \<le> i + k \<longrightarrow> l ! j = 0"
  shows "rsi_value (snd (snd (rsi_loop c p g l i ag al pts)) ! (length pts + k)) = 100"
  using assms
proof (induction c p g l i ag al pts arbitrary: k rule: rsi_loop.induct)
  case (1 c p g l i ag al pts)
  from "1.prems" have lt: "i < length g" by simp
  from "1.prems" have li: "l ! i = 0" by simp
  have al': "(al * (real p - 1) + l ! i) / real p = 0"
    using li "1.prems"(1) by simp
  note IH = "1.IH" [OF lt refl refl refl refl]
  let ?ag = "(ag * (real p - 1) + g ! i) / real p"
  let ?pt = "\<lparr>rsi_timestamp = timestamp (c ! (i + 1)), rsi_value = 100\<rparr>"
  have eq: "rsi_loop c p g l i ag al pts = rsi_loop c p g l (i + 1) ?ag 0 (pts @ [?pt])"
    using rsi_loop_unfold [OF lt, of c p l ag al pts] al' by simp
  show ?case
  proof (cases k)
    case 0
    obtain new where
      "snd (snd (rsi_loop c p g l (i + 1) ?ag 0 (pts @ [?pt]))) = (pts @ [?pt]) @ new"
      using rsi_loop_points by blast
    then show ?thesis
      unfolding eq 0 by (simp add: nth_append)
  next
    case (Suc k')
    have a: "k' < length g - (i + 1)" using "1.prems" Suc by simp
    have b: "\<forall>j. i + 1 \<le> j \<and> j \<le> i + 1 + k' \<longrightarrow> l ! j = 0"
      using "1.prems" Suc by simp
    show ?thesis
      unfolding eq Suc
      using IH [OF al' a b] al' by simp
  qed
qed

lemma rsi_loop_final_avgLoss:
  assumes "al = 0" "\<forall>j. i \<le> j \<and> j < length g \<longrightarrow> l ! j = 0"
  shows "fst (snd (rsi_loop c p g l i ag al pts)) = 0"
  using assms
proof (induction c p g l i ag al pts rule: rsi_loop.induct)
  case (1 c p g l i ag al pts)
  show ?case
  proof (cases "i < length g")
    case True
    with "1.prems" have li: "l ! i = 0" by simp
    have al': "(al * (real p - 1) + l ! i) / real p = 0"
      using li "1.prems"(1) by simp
    have b: "\<forall>j. i + 1 \<le> j \<and> j < length g \<longrightarrow> l ! j = 0"
      using "1.prems" by simp
    show ?thesis
      unfolding rsi_loop_unfold [OF True]
      using "1.IH" [OF True refl refl refl refl al' b] by simp
  next
    case False
    with "1.prems" show ?thesis by (simp add: rsi_loop_done)
  qed
qed


lemma rsi_run_eq:
  "rsi_run candles period =
     rsi_loop candles period
       (map (\<lambda>j. max (close (candles ! j) - close (candles ! (j - 1))) 0) [1..<length candles])
       (map (\<lambda>j. max (- (close (candles ! j) - close (candles ! (j - 1)))) 0) [1..<length candles])
       period
       (sum_list (take period
          (map (\<lambda>j. max (close (candles ! j) - close (candles ! (j - 1))) 0) [1..<length candles]))
          / real period)
       (sum_list (take period
          (map (\<lambda>j. max (- (close (candles ! j) - close (candles ! (j - 1)))) 0) [1..<length candles]))
          / real period)
       []"
proof -
  have nth: "map close candles ! j = close (candles ! j)" if "j < length candles" for j
    using that by simp
  have g: "map (\<lambda>j. max (map close candles ! j - map close candles ! (j - 1)) 0) [1..<length candles]
      = map (\<lambda>j. max (close (candles ! j) - close (candles ! (j - 1))) 0) [1..<length candles]"
    by (rule map_cong) (auto simp: nth)
  have l: "map (\<lambda>j. max (- (map close candles ! j - map close candles ! (j - 1))) 0) [1..<length candles]
      = map (\<lambda>j. max (- (close (candles ! j) - close (candles ! (j - 1)))) 0) [1..<length candles]"
    by (rule map_cong) (auto simp: nth)
  have d: "deltas_loop (map close candles) 1 [] [] =
      (map (\<lambda>j. max (close (candles ! j) - close (candles ! (j - 1))) 0) [1..<length candles],
       map (\<lambda>j. max (- (close (candles ! j) - close (candles ! (j - 1)))) 0) [1..<length candles])"
    unfolding deltas_loop_eq using g l by simp
  show ?thesis
    unfolding rsi_run_def Let_def d prod.case foldl_plus_sum_list by simp
qed

lemma length_rsi_points:
  "length (calculateRsiFromCandles candles period) = length candles - period - 1"
proof (cases "length candles \<le> period")
  case True
  then show ?thesis by (simp add: calculateRsiFromCandles_def)
next
  case False
  obtain new where n: "snd (snd (rsi_run candles period)) = [] @ new"
    and "length new = length (map (\<lambda>j. max (close (candles ! j) - close (candles ! (j - 1))) 0) [1..<length candles]) - period"
    unfolding rsi_run_eq using rsi_loop_points by blast
  then have "length (snd (snd (rsi_run candles period))) = length candles - 1 - period"
    by simp
  with False show ?thesis
    by (simp add: calculateRsiFromCandles_def case_prod_beta)
qed

text \<open>
  C9. The number of RSI points is the number of candles minus \<open>period + 1\<close>. So a sequence
  of exactly \<open>period + 1\<close> candles, the shortest that passes the guard, gives the empty
  sequence, and a non-empty result needs at least \<open>period + 2\<close> candles.
\<close>

theorem rsi_length:
  "length (calculateRsiFromCandles candles period) = length candles - period - 1 \<and>
   (length candles = period + 1 \<longrightarrow> calculateRsiFromCandles candles period = []) \<and>
   (calculateRsiFromCandles candles period \<noteq> [] \<longrightarrow> period + 2 \<le> length candles)"
proof -
  have "length (calculateRsiFromCandles candles period) = length candles - period - 1"
    by (rule length_rsi_points)
  moreover from this have "calculateRsiFromCandles candles period = []"
    if "length candles = period + 1"
    using that by simp
  moreover have "period + 2 \<le> length candles"
    if "calculateRsiFromCandles candles period \<noteq> []"
  proof -
    from that have "0 < length (calculateRsiFromCandles candles period)" by simp
    then show ?thesis unfolding length_rsi_points by arith
  qed
  ultimately show ?thesis by blast
qed


text \<open>Period 2: three candles give no point, four candles give one.\<close>

theorem rsi_length_witness:
  "calculateRsiFromCandles
      [\<lparr>timestamp = 10, c_open = 3, c_high = 3, c_low = 3, close = 3, volume = 0\<rparr>,
       \<lparr>timestamp = 20, c_open = 2, c_high = 2, c_low = 2, close = 2, volume = 0\<rparr>,
       \<lparr>timestamp = 30, c_open = 1, c_high = 1, c_low = 1, close = 1, volume = 0\<rparr>] 2 = []
   \<and> length (calculateRsiFromCandles
      [\<lparr>timestamp = 10, c_open = 3, c_high = 3, c_low = 3, close = 3, volume = 0\<rparr>,
       \<lparr>timestamp = 20, c_open = 2, c_high = 2, c_low = 2, close = 2, volume = 0\<rparr>,
       \<lparr>timestamp = 30, c_open = 1, c_high = 1, c_low = 1, close = 1, volume = 0\<rparr>,
       \<lparr>timestamp = 40, c_open = 2, c_high = 2, c_low = 2, close = 2, volume = 0\<rparr>] 2) = 1"
  using rsi_length [of
      "[\<lparr>timestamp = 10, c_open = 3, c_high = 3, c_low = 3, close = 3, volume = 0\<rparr>,
       \<lparr>timestamp = 20, c_open = 2, c_high = 2, c_low = 2, close = 2, volume = 0\<rparr>,
       \<lparr>timestamp = 30, c_open = 1, c_high = 1, c_low = 1, close = 1, volume = 0\<rparr>]" 2]
    rsi_length [of
      "[\<lparr>timestamp = 10, c_open = 3, c_high = 3, c_low = 3, close = 3, volume = 0\<rparr>,
       \<lparr>timestamp = 20, c_open = 2, c_high = 2, c_low = 2, close = 2, volume = 0\<rparr>,
       \<lparr>timestamp = 30, c_open = 1, c_high = 1, c_low = 1, close = 1, volume = 0\<rparr>,
       \<lparr>timestamp = 40, c_open = 2, c_high = 2, c_low = 2, close = 2, volume = 0\<rparr>]" 2]
  by simp

lemma sum_list_all_zero: "(\<And>x. x \<in> set xs \<Longrightarrow> x = 0) \<Longrightarrow> sum_list xs = 0"
  for xs :: "real list"
  by (induction xs) simp_all

lemma rsi_monotone_aux:
  assumes "0 < period" and "period < length candles"
  shows "(\<forall>k. period + k + 1 < length candles \<and>
              (\<forall>j < period + k + 1. close (candles ! j) \<le> close (candles ! (j + 1))) \<longrightarrow>
            rsi_value (calculateRsiFromCandles candles period ! k) = 100) \<and>
         ((\<forall>j. j + 1 < length candles \<longrightarrow> close (candles ! j) \<le> close (candles ! (j + 1))) \<longrightarrow>
            fst (snd (rsi_run candles period)) = 0 \<and>
            (\<forall>pt \<in> set (calculateRsiFromCandles candles period). rsi_value pt = 100))"
proof -
  define G where "G = map (\<lambda>j. max (close (candles ! j) - close (candles ! (j - 1))) 0) [1..<length candles]"
  define L where "L = map (\<lambda>j. max (- (close (candles ! j) - close (candles ! (j - 1)))) 0) [1..<length candles]"
  have run: "rsi_run candles period =
      rsi_loop candles period G L period (sum_list (take period G) / real period)
        (sum_list (take period L) / real period) []"
    unfolding G_def L_def by (rule rsi_run_eq)
  have calc: "calculateRsiFromCandles candles period = snd (snd (rsi_run candles period))"
    using assms by (simp add: calculateRsiFromCandles_def case_prod_beta)
  have lenG: "length G = length candles - 1" by (simp add: G_def)
  have Lz: "L ! j = 0" if "j + 1 < length candles" "close (candles ! j) \<le> close (candles ! (j + 1))" for j
  proof -
    from that(1) have u: "[1..<length candles] ! j = 1 + j"
      by (intro nth_upt) simp
    from that(1) have "j < length [1..<length candles]" by simp
    then have "L ! j = max (- (close (candles ! (1 + j)) - close (candles ! (1 + j - 1)))) 0"
      unfolding L_def by (simp only: nth_map u)
    then have "L ! j = max (- (close (candles ! (j + 1)) - close (candles ! j))) 0"
      by simp
    with that(2) show ?thesis by simp
  qed
  have seed: "sum_list (take period L) / real period = 0"
    if "\<forall>j < period. close (candles ! j) \<le> close (candles ! (j + 1))"
  proof -
    have "x = 0" if "x \<in> set (take period L)" for x
    proof -
      from that obtain j where j: "j < length (take period L)" "x = take period L ! j"
        by (auto simp: in_set_conv_nth)
      then have "j < period" "j + 1 < length candles" by (auto simp: L_def)
      with j \<open>\<forall>j < period. close (candles ! j) \<le> close (candles ! (j + 1))\<close> Lz [of j]
      show "x = 0" by simp
    qed
    then have "sum_list (take period L) = 0" by (rule sum_list_all_zero)
    then show ?thesis by simp
  qed
  have prefix: "rsi_value (calculateRsiFromCandles candles period ! k) = 100"
    if k: "period + k + 1 < length candles"
      and mono: "\<forall>j < period + k + 1. close (candles ! j) \<le> close (candles ! (j + 1))" for k
  proof -
    have s: "sum_list (take period L) / real period = 0"
      using mono by (intro seed) simp
    have a: "k < length G - period" using k by (simp add: lenG)
    have b: "\<forall>j. period \<le> j \<and> j \<le> period + k \<longrightarrow> L ! j = 0"
    proof (intro allI impI)
      fix j assume "period \<le> j \<and> j \<le> period + k"
      with k have lt: "j + 1 < length candles" and "j < period + k + 1" by arith+
      with mono have "close (candles ! j) \<le> close (candles ! (j + 1))" by blast
      with lt show "L ! j = 0" by (rule Lz)
    qed
    from rsi_loop_zero_loss [OF s a b, of candles period "sum_list (take period G) / real period" "[]"]
    show ?thesis by (simp add: calc run)
  qed
  have whole: "fst (snd (rsi_run candles period)) = 0 \<and>
      (\<forall>pt \<in> set (calculateRsiFromCandles candles period). rsi_value pt = 100)"
    if mono: "\<forall>j. j + 1 < length candles \<longrightarrow> close (candles ! j) \<le> close (candles ! (j + 1))"
  proof
    have s: "sum_list (take period L) / real period = 0"
      using mono assms by (intro seed) simp
    have b: "\<forall>j. period \<le> j \<and> j < length G \<longrightarrow> L ! j = 0"
    proof (intro allI impI)
      fix j assume "period \<le> j \<and> j < length G"
      then have lt: "j + 1 < length candles" unfolding lenG by arith
      with mono have "close (candles ! j) \<le> close (candles ! (j + 1))" by blast
      with lt show "L ! j = 0" by (rule Lz)
    qed
    from rsi_loop_final_avgLoss [OF s b]
    show "fst (snd (rsi_run candles period)) = 0" by (simp add: run)
    show "\<forall>pt \<in> set (calculateRsiFromCandles candles period). rsi_value pt = 100"
    proof
      fix pt assume "pt \<in> set (calculateRsiFromCandles candles period)"
      then obtain k where kk: "k < length (calculateRsiFromCandles candles period)"
        and pt: "pt = calculateRsiFromCandles candles period ! k"
        by (auto simp: in_set_conv_nth)
      from kk have "period + k + 1 < length candles" unfolding length_rsi_points by simp
      moreover from this mono
      have "\<forall>j < period + k + 1. close (candles ! j) \<le> close (candles ! (j + 1))" by simp
      ultimately show "rsi_value pt = 100" unfolding pt by (rule prefix)
    qed
  qed
  from prefix whole show ?thesis by blast
qed


lemma sorted_take_step:
  assumes "sorted (map f (take n xs))" "j + 1 < n" "j + 1 < length xs"
  shows "f (xs ! j) \<le> f (xs ! (j + 1))"
proof -
  from assms(2,3) have "j + 1 < length (map f (take n xs))" by simp
  with assms(1) have "map f (take n xs) ! j \<le> map f (take n xs) ! (j + 1)"
    by (intro sorted_nth_mono) simp_all
  with assms(2,3) show ?thesis by simp
qed

text \<open>
  C5, as amended. Let \<open>period\<close> be a positive whole number smaller than the number of
  candles. If the closes never decrease from the first candle up to the candle of the
  \<open>k\<close>-th RSI point (the seed window included), that point has the value \<open>100\<close>. If the
  closes never decrease over the whole sequence, the running average loss ends at \<open>0\<close>
  and every emitted point has the value \<open>100\<close>.
\<close>

theorem rsi_monotone_100:
  assumes "0 < period" and "period < length candles"
  shows "(\<forall>k. period + k + 1 < length candles \<and>
              sorted (map close (take (period + k + 2) candles)) \<longrightarrow>
            rsi_value (calculateRsiFromCandles candles period ! k) = 100) \<and>
         (sorted (map close candles) \<longrightarrow>
            fst (snd (rsi_run candles period)) = 0 \<and>
            (\<forall>pt \<in> set (calculateRsiFromCandles candles period). rsi_value pt = 100))"
proof (intro conjI allI impI)
  fix k
  assume h: "period + k + 1 < length candles \<and>
    sorted (map close (take (period + k + 2) candles))"
  have "\<forall>j < period + k + 1. close (candles ! j) \<le> close (candles ! (j + 1))"
  proof (intro allI impI)
    fix j assume "j < period + k + 1"
    with h have "j + 1 < period + k + 2" "j + 1 < length candles" by arith+
    with h show "close (candles ! j) \<le> close (candles ! (j + 1))"
      by (intro sorted_take_step [of close "period + k + 2"]) simp_all
  qed
  with h rsi_monotone_aux [OF assms]
  show "rsi_value (calculateRsiFromCandles candles period ! k) = 100" by blast
next
  assume s: "sorted (map close candles)"
  have "\<forall>j. j + 1 < length candles \<longrightarrow> close (candles ! j) \<le> close (candles ! (j + 1))"
  proof (intro allI impI)
    fix j assume "j + 1 < length candles"
    with s show "close (candles ! j) \<le> close (candles ! (j + 1))"
      by (intro sorted_take_step [of close "length candles"]) simp_all
  qed
  with rsi_monotone_aux [OF assms]
  show "fst (snd (rsi_run candles period)) = 0"
    and "\<forall>pt \<in> set (calculateRsiFromCandles candles period). rsi_value pt = 100"
    by blast+
qed

text \<open>Four rising closes with period 2: one point, of value \<open>100\<close>.\<close>

theorem rsi_monotone_100_witness:
  "rsi_value (calculateRsiFromCandles
      [\<lparr>timestamp = 10, c_open = 1, c_high = 1, c_low = 1, close = 1, volume = 0\<rparr>,
       \<lparr>timestamp = 20, c_open = 2, c_high = 2, c_low = 2, close = 2, volume = 0\<rparr>,
       \<lparr>timestamp = 30, c_open = 3, c_high = 3, c_low = 3, close = 3, volume = 0\<rparr>,
       \<lparr>timestamp = 40, c_open = 4, c_high = 4, c_low = 4, close = 4, volume = 0\<rparr>] 2 ! 0) = 100
   \<and> fst (snd (rsi_run
      [\<lparr>timestamp = 10, c_open = 1, c_high = 1, c_low = 1, close = 1, volume = 0\<rparr>,
       \<lparr>timestamp = 20, c_open = 2, c_high = 2, c_low = 2, close = 2, volume = 0\<rparr>,
       \<lparr>timestamp = 30, c_open = 3, c_high = 3, c_low = 3, close = 3, volume = 0\<rparr>,
       \<lparr>timestamp = 40, c_open = 4, c_high = 4, c_low = 4, close = 4, volume = 0\<rparr>] 2)) = 0"
  using rsi_monotone_100 [of 2
      "[\<lparr>timestamp = 10, c_open = 1, c_high = 1, c_low = 1, close = 1, volume = 0\<rparr>,
       \<lparr>timestamp = 20, c_open = 2, c_high = 2, c_low = 2, close = 2, volume = 0\<rparr>,
       \<lparr>timestamp = 30, c_open = 3, c_high = 3, c_low = 3, close = 3, volume = 0\<rparr>,
       \<lparr>timestamp = 40, c_open = 4, c_high = 4, c_low = 4, close = 4, volume = 0\<rparr>]",
      THEN conjunct1, THEN spec, of 0]
    rsi_monotone_100 [of 2
      "[\<lparr>timestamp = 10, c_open = 1, c_high = 1, c_low = 1, close = 1, volume = 0\<rparr>,
       \<lparr>timestamp = 20, c_open = 2, c_high = 2, c_low = 2, close = 2, volume = 0\<rparr>,
       \<lparr>timestamp = 30, c_open = 3, c_high = 3, c_low = 3, close = 3, volume = 0\<rparr>,
       \<lparr>timestamp = 40, c_open = 4, c_high = 4, c_low = 4, close = 4, volume = 0\<rparr>]",
      THEN conjunct2]
  by simp

lemmas rsi_eval = calculateRsiFromCandles_def rsi_run_def deltas_loop.simps rsi_loop.simps Let_def

text \<open>
  C5 as the specification states it fails: with period 2 and the closes \<open>3, 2, 1, 2, 3\<close> the
  closes rise for two steps after the seed window, the losses of the seed window stay in
  the smoothed average, and the two points are \<open>50\<close> and \<open>75\<close> with a final average loss
  of \<open>1/4\<close>.
\<close>

theorem rsi_after_seed_counterexample:
  "map rsi_value (calculateRsiFromCandles
      [\<lparr>timestamp = 10, c_open = 3, c_high = 3, c_low = 3, close = 3, volume = 0\<rparr>,
       \<lparr>timestamp = 20, c_open = 2, c_high = 2, c_low = 2, close = 2, volume = 0\<rparr>,
       \<lparr>timestamp = 30, c_open = 1, c_high = 1, c_low = 1, close = 1, volume = 0\<rparr>,
       \<lparr>timestamp = 40, c_open = 2, c_high = 2, c_low = 2, close = 2, volume = 0\<rparr>,
       \<lparr>timestamp = 50, c_open = 3, c_high = 3, c_low = 3, close = 3, volume = 0\<rparr>] 2) = [50, 75]
   \<and> fst (snd (rsi_run
      [\<lparr>timestamp = 10, c_open = 3, c_high = 3, c_low = 3, close = 3, volume = 0\<rparr>,
       \<lparr>timestamp = 20, c_open = 2, c_high = 2, c_low = 2, close = 2, volume = 0\<rparr>,
       \<lparr>timestamp = 30, c_open = 1, c_high = 1, c_low = 1, close = 1, volume = 0\<rparr>,
       \<lparr>timestamp = 40, c_open = 2, c_high = 2, c_low = 2, close = 2, volume = 0\<rparr>,
       \<lparr>timestamp = 50, c_open = 3, c_high = 3, c_low = 3, close = 3, volume = 0\<rparr>] 2)) = 1 / 4"
  by (simp add: rsi_eval)

subsection \<open>MACD\<close>

lemma macd_loop_histogram:
  "\<forall>pt \<in> set out. histogram pt = macd pt - signal pt \<Longrightarrow>
   \<forall>pt \<in> set (macd_loop c ml sr i sc out). histogram pt = macd pt - signal pt"
proof (induction c ml sr i sc out rule: macd_loop.induct)
  case (1 c ml sr i sc out)
  show ?case
  proof (cases "i < length ml")
    case False
    with "1.prems" show ?thesis by (subst macd_loop.simps) simp
  next
    case True
    show ?thesis
    proof (cases "ml ! i")
      case None
      with True "1.IH"(1) [OF True None "1.prems"] show ?thesis
        by (subst macd_loop.simps) simp
    next
      case (Some m)
      show ?thesis
      proof (cases "js_index sr sc")
        case None
        with True Some "1.IH"(2) [OF True Some None "1.prems"] show ?thesis
          by (subst macd_loop.simps) simp
      next
        case (Some sg)
        have "\<forall>pt \<in> set (out @ [\<lparr>macd_timestamp = timestamp (c ! i), macd = m,
                                signal = sg, histogram = m - sg\<rparr>]). histogram pt = macd pt - signal pt"
          using "1.prems" by simp
        from "1.IH"(3) [OF True \<open>ml ! i = Some m\<close> Some this] True \<open>ml ! i = Some m\<close> Some
        show ?thesis
          by (subst macd_loop.simps) simp
      qed
    qed
  qed
qed

lemma calculateMacd_histogram:
  "\<forall>pt \<in> set (calculateMacdFromCandles candles f s g). histogram pt = macd pt - signal pt"
  unfolding calculateMacdFromCandles_def Let_def
  using macd_loop_histogram [of "[]"] by simp

lemma finnhub_getMacd_points:
  assumes "finnhub_getMacd d = Some pts" "pt \<in> set pts"
  shows "\<exists>index < length (the (ind_t d)).
           macd_timestamp pt = the (ind_t d) ! index \<and>
           opt_index (ind_macd d) index = Some (macd pt) \<and>
           opt_index (ind_signal d) index = Some (signal pt) \<and>
           (\<forall>h. opt_index (ind_histogram d) index = Some h \<longrightarrow> histogram pt = h)"
proof -
  from assms obtain index ts where
    e: "(index, ts) \<in> set (enumerate 0 (the (ind_t d)))"
    and pt: "pt \<in> set (case (opt_index (ind_macd d) index, opt_index (ind_signal d) index) of
                  (Some m, Some sg) \<Rightarrow>
                    [\<lparr>macd_timestamp = ts, macd = m, signal = sg,
                      histogram = nullish (opt_index (ind_histogram d) index) 0\<rparr>]
                | _ \<Rightarrow> [])"
    by (auto simp: finnhub_getMacd_def split: if_splits)
  from e have i: "index < length (the (ind_t d))" "ts = the (ind_t d) ! index"
    by (simp_all add: in_set_enumerate_eq)
  show ?thesis
  proof (cases "opt_index (ind_macd d) index")
    case None
    with pt show ?thesis by simp
  next
    case m: (Some m)
    show ?thesis
    proof (cases "opt_index (ind_signal d) index")
      case None
      with pt m show ?thesis by simp
    next
      case (Some sg)
      with pt m have "pt = \<lparr>macd_timestamp = ts, macd = m, signal = sg,
                      histogram = nullish (opt_index (ind_histogram d) index) 0\<rparr>"
        by simp
      with i m Some show ?thesis by (auto simp: nullish_def)
    qed
  qed
qed


text \<open>
  C6, as amended. For whole-number periods of at least 1 with \<open>fastPeriod\<close> not larger than
  \<open>slowPeriod\<close>, every point returned by \<open>calculateMacdFromCandles\<close> has
  \<open>histogram = macd - signal\<close>. A point returned by \<open>FinnhubClient.getMacd\<close> stands for
  an index of the upstream timestamp array; its \<open>macd\<close> and \<open>signal\<close> are the upstream
  entries at that index, and its histogram is the upstream histogram entry at that index
  whenever the payload has one.
\<close>

theorem macd_histogram:
  "(0 < fastPeriod \<and> fastPeriod \<le> slowPeriod \<and> 0 < signalPeriod \<longrightarrow>
      (\<forall>pt \<in> set (calculateMacdFromCandles candles fastPeriod slowPeriod signalPeriod).
         histogram pt = macd pt - signal pt)) \<and>
   (finnhub_getMacd d = Some pts \<longrightarrow>
      (\<forall>pt \<in> set pts. \<exists>index < length (the (ind_t d)).
         macd_timestamp pt = the (ind_t d) ! index \<and>
         opt_index (ind_macd d) index = Some (macd pt) \<and>
         opt_index (ind_signal d) index = Some (signal pt) \<and>
         (\<forall>h. opt_index (ind_histogram d) index = Some h \<longrightarrow> histogram pt = h)))"
  using calculateMacd_histogram finnhub_getMacd_points by blast

text \<open>
  Four candles with the periods 1, 2 and 2 give two points; a Finnhub payload of one entry
  with a histogram gives one point.
\<close>

theorem macd_histogram_witness:
  "calculateMacdFromCandles
      [\<lparr>timestamp = 10, c_open = 1, c_high = 1, c_low = 1, close = 1, volume = 0\<rparr>,
       \<lparr>timestamp = 20, c_open = 2, c_high = 2, c_low = 2, close = 2, volume = 0\<rparr>,
       \<lparr>timestamp = 30, c_open = 4, c_high = 4, c_low = 4, close = 4, volume = 0\<rparr>,
       \<lparr>timestamp = 40, c_open = 8, c_high = 8, c_low = 8, close = 8, volume = 0\<rparr>] 1 2 2
     = [\<lparr>macd_timestamp = 30, macd = 5 / 6, signal = 2 / 3, histogram = 5 / 6 - 2 / 3\<rparr>,
        \<lparr>macd_timestamp = 40, macd = 29 / 18, signal = 35 / 27, histogram = 29 / 18 - 35 / 27\<rparr>]
   \<and> finnhub_getMacd \<lparr>ind_s = Some ''ok'', ind_t = Some [1700000000], ind_macd = Some [3],
        ind_signal = Some [1], ind_histogram = Some [2]\<rparr>
     = Some [\<lparr>macd_timestamp = 1700000000, macd = 3, signal = 1, histogram = 2\<rparr>]"
proof -
  let ?cs = "[\<lparr>timestamp = 10, c_open = 1, c_high = 1, c_low = 1, close = 1, volume = 0\<rparr>,
       \<lparr>timestamp = 20, c_open = 2, c_high = 2, c_low = 2, close = 2, volume = 0\<rparr>,
       \<lparr>timestamp = 30, c_open = 4, c_high = 4, c_low = 4, close = 4, volume = 0\<rparr>,
       \<lparr>timestamp = 40, c_open = 8, c_high = 8, c_low = 8, close = 8, volume = 0\<rparr>]"
  let ?d = "\<lparr>ind_s = Some ''ok'', ind_t = Some [1700000000], ind_macd = Some [3],
        ind_signal = Some [1], ind_histogram = Some [2]\<rparr>"
  have shape: "map (\<lambda>pt. (macd_timestamp pt, macd pt, signal pt))
        (calculateMacdFromCandles ?cs 1 2 2) = [(30, 5 / 6, 2 / 3), (40, 29 / 18, 35 / 27)]"
    by code_simp
  have fh: "\<exists>pt. finnhub_getMacd ?d = Some [pt] \<and> macd_timestamp pt = 1700000000
      \<and> macd pt = 3 \<and> signal pt = 1"
    by (simp add: finnhub_getMacd_def enumerate_eq_zip opt_index_def nullish_def)
  then obtain pt where pt: "finnhub_getMacd ?d = Some [pt]" "macd_timestamp pt = 1700000000"
    "macd pt = 3" "signal pt = 1" by blast
  from macd_histogram [of 1 2 2 ?cs ?d "[pt]"] pt(1)
  have a: "\<forall>pt \<in> set (calculateMacdFromCandles ?cs 1 2 2). histogram pt = macd pt - signal pt"
    and b: "\<exists>index < length (the (ind_t ?d)). 
         (\<forall>h. opt_index (ind_histogram ?d) index = Some h \<longrightarrow> histogram pt = h)"
    by auto
  from b have "histogram pt = 2" by (simp add: opt_index_def)
  with pt have 2: "finnhub_getMacd ?d = Some [\<lparr>macd_timestamp = 1700000000, macd = 3, signal = 1, histogram = 2\<rparr>]"
    by (cases pt) simp
  from shape obtain p1 p2 where r: "calculateMacdFromCandles ?cs 1 2 2 = [p1, p2]"
    and "macd_timestamp p1 = 30" "macd p1 = 5 / 6" "signal p1 = 2 / 3"
    and "macd_timestamp p2 = 40" "macd p2 = 29 / 18" "signal p2 = 35 / 27"
    by (auto simp: map_eq_Cons_conv)
  moreover from a r have "histogram p1 = macd p1 - signal p1" "histogram p2 = macd p2 - signal p2"
    by simp_all
  ultimately have 1: "calculateMacdFromCandles ?cs 1 2 2
     = [\<lparr>macd_timestamp = 30, macd = 5 / 6, signal = 2 / 3, histogram = 5 / 6 - 2 / 3\<rparr>,
        \<lparr>macd_timestamp = 40, macd = 29 / 18, signal = 35 / 27, histogram = 29 / 18 - 35 / 27\<rparr>]"
    by (cases p1, cases p2) simp
  from 1 2 show ?thesis by blast
qed

text \<open>
  C6 as the specification states it fails for the adapter: the histogram of a point of
  \<open>FinnhubClient.getMacd\<close> is copied from the payload, here \<open>5\<close> beside \<open>macd = 3\<close> and
  \<open>signal = 1\<close>.
\<close>

theorem finnhub_macd_counterexample:
  "finnhub_getMacd \<lparr>ind_s = Some ''ok'', ind_t = Some [1700000000], ind_macd = Some [3],
       ind_signal = Some [1], ind_histogram = Some [5]\<rparr>
     = Some [\<lparr>macd_timestamp = 1700000000, macd = 3, signal = 1, histogram = 5\<rparr>]
   \<and> histogram \<lparr>macd_timestamp = 1700000000, macd = 3, signal = 1, histogram = 5\<rparr>
     \<noteq> macd \<lparr>macd_timestamp = 1700000000, macd = 3, signal = 1, histogram = 5\<rparr>
       - signal \<lparr>macd_timestamp = 1700000000, macd = 3, signal = 1, histogram = 5\<rparr>"
  by (simp add: finnhub_getMacd_def enumerate_eq_zip opt_index_def nullish_def)

section \<open>Properties of the fallback orchestrator\<close>

lemma fallback_attempt_terminal:
  assumes "data (fst (fallback_attempt tool fallback errors primaryNoData s)) = None"
  shows "error (fst (fallback_attempt tool fallback errors primaryNoData s)) =
           Some (toUserErrorMessage tool (errors @ thrown fallback s) primaryNoData)"
proof (cases fallback)
  case None
  then show ?thesis by (simp add: fallback_attempt_def thrown_def)
next
  case (Some f)
  obtain out s' where fs: "f s = (out, s')" by (cases "f s")
  show ?thesis
  proof (cases out)
    case (Resolves r)
    show ?thesis
    proof (cases "truthy r")
      case True
      then have "r \<noteq> None" by (auto simp: truthy_def split: option.splits)
      with assms Some fs Resolves True show ?thesis
        by (simp add: fallback_attempt_def)
    next
      case False
      with Some fs Resolves show ?thesis
        by (simp add: fallback_attempt_def thrown_def)
    qed
  next
    case (Throws e)
    with Some fs show ?thesis by (simp add: fallback_attempt_def thrown_def)
  next
    case ThrowsOther
    with Some fs show ?thesis by (simp add: fallback_attempt_def thrown_def)
  qed
qed

lemma executeWithFallback_terminal:
  assumes "data (fst (executeWithFallback tool primary fallback s)) = None"
  shows "error (fst (executeWithFallback tool primary fallback s)) =
           Some (toUserErrorMessage tool
             (thrown primary s @ thrown fallback (state_after primary s))
             (resolves_no_data primary s))"
proof (cases primary)
  case None
  with assms fallback_attempt_terminal [of tool fallback "[]" False s] show ?thesis
    by (simp add: executeWithFallback_def thrown_def state_after_def resolves_no_data_def)
next
  case (Some f)
  obtain out s' where fs: "f s = (out, s')" by (cases "f s")
  show ?thesis
  proof (cases out)
    case (Resolves r)
    show ?thesis
    proof (cases "truthy r")
      case False
      with assms Some fs Resolves fallback_attempt_terminal [of tool fallback "[]" True s']
      show ?thesis
        by (simp add: executeWithFallback_def thrown_def state_after_def resolves_no_data_def)
    next
      case True
      then have "r \<noteq> None" by (auto simp: truthy_def split: option.splits)
      with assms Some fs Resolves True show ?thesis
        by (simp add: executeWithFallback_def)
    qed
  next
    case (Throws e)
    with assms Some fs fallback_attempt_terminal [of tool fallback "[e]" False s']
    show ?thesis
      by (simp add: executeWithFallback_def thrown_def state_after_def resolves_no_data_def)
  next
    case ThrowsOther
    with assms Some fs fallback_attempt_terminal [of tool fallback "[]" False s']
    show ?thesis
      by (simp add: executeWithFallback_def thrown_def state_after_def resolves_no_data_def)
  qed
qed

text \<open>
  C1. When the orchestrator ends with no data, and some \<^verbatim>\<open>ProviderError\<close> thrown by the
  primary or by the fallback attempt has the code \<open>RATE_LIMIT\<close>, the error string is the
  rate-limit message, whatever the other errors are; when none has \<open>RATE_LIMIT\<close> and some
  has \<open>AUTH\<close>, it is the message about the API key.
\<close>

theorem terminal_error_priority:
  assumes "data (fst (executeWithFallback tool primary fallback s)) = None"
  shows "((\<exists>e \<in> set (thrown primary s @ thrown fallback (state_after primary s)).
             code e = RATE_LIMIT) \<longrightarrow>
          error (fst (executeWithFallback tool primary fallback s)) =
            Some (tool @ '' failed: provider rate limit reached. Try again shortly or add higher-tier API keys.'')) \<and>
         (\<not> (\<exists>e \<in> set (thrown primary s @ thrown fallback (state_after primary s)).
             code e = RATE_LIMIT) \<and>
          (\<exists>e \<in> set (thrown primary s @ thrown fallback (state_after primary s)).
             code e = AUTH) \<longrightarrow>
          error (fst (executeWithFallback tool primary fallback s)) =
            Some (tool @ '' failed: missing or invalid API key. Check FINNHUB_API_KEY and ALPHAVANTAGE_API_KEY.''))"
  unfolding executeWithFallback_terminal [OF assms]
  by (simp add: toUserErrorMessage_def list_ex_iff)

text \<open>
  A primary that throws \<open>NOT_FOUND\<close> with a fallback that throws \<open>RATE_LIMIT\<close>, and a
  primary without data with a fallback that throws \<open>AUTH\<close>.
\<close>

theorem terminal_error_priority_witness:
  "error (fst (executeWithFallback ''get_quote''
       (Some (\<lambda>s. (Throws \<lparr>provider = finnhub, code = NOT_FOUND, message = ''Provider request failed with status 404.'', status = Some 404\<rparr>, Suc s)))
       (Some (\<lambda>s. (Throws \<lparr>provider = alphavantage, code = RATE_LIMIT, message = ''call frequency'', status = None\<rparr>, Suc s)))
       (0 :: nat)) :: NormalizedQuote js_value fallback_result)
     = Some ''get_quote failed: provider rate limit reached. Try again shortly or add higher-tier API keys.''
   \<and> error (fst (executeWithFallback ''get_quote''
       (Some (\<lambda>s. (Resolves None, Suc s)))
       (Some (\<lambda>s. (Throws \<lparr>provider = alphavantage, code = AUTH, message = ''the api key is invalid'', status = None\<rparr>, Suc s)))
       (0 :: nat)) :: NormalizedQuote js_value fallback_result)
     = Some ''get_quote failed: missing or invalid API key. Check FINNHUB_API_KEY and ALPHAVANTAGE_API_KEY.''"
  using terminal_error_priority [of "''get_quote''"
       "Some (\<lambda>s. (Throws \<lparr>provider = finnhub, code = NOT_FOUND, message = ''Provider request failed with status 404.'', status = Some 404\<rparr>, Suc s))
          :: (NormalizedQuote js_value, nat) fetcher option"
       "Some (\<lambda>s. (Throws \<lparr>provider = alphavantage, code = RATE_LIMIT, message = ''call frequency'', status = None\<rparr>, Suc s))"
       "0 :: nat"]
    terminal_error_priority [of "''get_quote''"
       "Some (\<lambda>s. (Resolves None, Suc s)) :: (NormalizedQuote js_value, nat) fetcher option"
       "Some (\<lambda>s. (Throws \<lparr>provider = alphavantage, code = AUTH, message = ''the api key is invalid'', status = None\<rparr>, Suc s))"
       "0 :: nat"]
  by (simp add: executeWithFallback_def fallback_attempt_def thrown_def state_after_def truthy_def)

text \<open>
  C3, as amended. When the primary fetcher resolves to a truthy value, the orchestrator
  returns that value as the data, with the source of the primary provider, no warning and
  no error, and the state is the one the primary fetcher left: the fallback fetcher,
  whatever it is, has not run. Every non-null object and every array is truthy, so this
  holds for every object or array the primary resolves to.
\<close>

theorem primary_data_short_circuit:
  "(ToBoolean d \<and> primary s = (Resolves (Some d), s') \<longrightarrow>
      executeWithFallback tool (Some primary) fallback s =
        (\<lparr>data = Some d, source = Some ''Finnhub'', warning = None, error = None\<rparr>, s')) \<and>
   (primary s = (Resolves (Some (JsObject v)), s') \<longrightarrow>
      executeWithFallback tool (Some primary) fallback s =
        (\<lparr>data = Some (JsObject v), source = Some ''Finnhub'', warning = None, error = None\<rparr>, s'))"
proof (intro conjI impI)
  assume "ToBoolean d \<and> primary s = (Resolves (Some d), s')"
  then show "executeWithFallback tool (Some primary) fallback s =
        (\<lparr>data = Some d, source = Some ''Finnhub'', warning = None, error = None\<rparr>, s')"
    by (simp add: executeWithFallback_def truthy_def)
next
  assume "primary s = (Resolves (Some (JsObject v)), s')"
  then show "executeWithFallback tool (Some primary) fallback s =
        (\<lparr>data = Some (JsObject v), source = Some ''Finnhub'', warning = None, error = None\<rparr>, s')"
    by (simp add: executeWithFallback_def truthy_def)
qed

text \<open>
  The state counts the calls of the two fetchers. A primary that resolves to an array of
  one timestamp, and a primary that resolves to the number 42: after each run the primary
  has been called once and the fallback not at all.
\<close>

theorem primary_data_short_circuit_witness:
  "executeWithFallback ''get_candles''
      (Some (\<lambda>(p, f). (Resolves (Some (JsObject [1700000000 :: real])), (Suc p, f))))
      (Some (\<lambda>(p, f). (Resolves (Some (JsObject [1700000060])), (p, Suc f))))
      (0 :: nat, 0 :: nat)
   = (\<lparr>data = Some (JsObject [1700000000]), source = Some ''Finnhub'', warning = None,
       error = None\<rparr>, (1, 0))
   \<and> executeWithFallback ''get_candles''
      (Some (\<lambda>(p, f). (Resolves (Some (JsNumber 42 :: real list js_value)), (Suc p, f))))
      (Some (\<lambda>(p, f). (Resolves (Some (JsObject [1700000060])), (p, Suc f))))
      (0 :: nat, 0 :: nat)
   = (\<lparr>data = Some (JsNumber 42), source = Some ''Finnhub'', warning = None,
       error = None\<rparr>, (1, 0))"
  using primary_data_short_circuit [of "JsNumber 42 :: real list js_value"
      "\<lambda>(p, f). (Resolves (Some (JsNumber 42)), (Suc p, f))"
      "(0 :: nat, 0 :: nat)" "(1, 0)" "''get_candles''"
      "Some (\<lambda>(p, f). (Resolves (Some (JsObject [1700000060])), (p, Suc f)))"
      "[1700000000]", THEN conjunct1]
    primary_data_short_circuit [of "JsNumber 42 :: real list js_value"
      "\<lambda>(p, f). (Resolves (Some (JsObject [1700000000 :: real])), (Suc p, f))"
      "(0 :: nat, 0 :: nat)" "(1, 0)" "''get_candles''"
      "Some (\<lambda>(p, f). (Resolves (Some (JsObject [1700000060])), (p, Suc f)))"
      "[1700000000]", THEN conjunct2]
  by simp

text \<open>
  C3 as the specification states it fails for a value that is not null and falsy: a
  primary that resolves to the number \<open>0\<close> does not end the run. The fallback fetcher is
  invoked (both call counts are \<open>1\<close>) and its data is returned with the source of the
  fallback provider and a warning.
\<close>

theorem primary_falsy_counterexample:
  "executeWithFallback ''get_candles''
      (Some (\<lambda>(p, f). (Resolves (Some (JsNumber 0 :: real list js_value)), (Suc p, f))))
      (Some (\<lambda>(p, f). (Resolves (Some (JsObject [1700000060])), (p, Suc f))))
      (0 :: nat, 0 :: nat)
   = (\<lparr>data = Some (JsObject [1700000060]), source = Some ''Alpha Vantage'',
       warning = Some ''Used fallback provider because primary returned no data.'',
       error = None\<rparr>, (1, 1))"
  by (simp add: executeWithFallback_def fallback_attempt_def truthy_def)

text \<open>
  C2 at two inputs where the fallback fetcher resolves to \<^verbatim>\<open>null\<close>: with no primary
  fetcher configured, and after a \<open>NETWORK\<close> error of the primary. Only the primary
  attempt sets the no-data flag, so both runs end with the generic provider/network
  message and not with the message about an unsupported symbol. The third run is the
  same outcome at the primary attempt, which does give that message.
\<close>

theorem fallback_null_not_recorded:
  "executeWithFallback ''get_quote'' None
      (Some (\<lambda>s. (Resolves (None :: NormalizedQuote js_value option), Suc s))) (0 :: nat)
     = (\<lparr>data = None, source = None, warning = None,
         error = Some ''get_quote failed due to provider/network errors. Try again in a moment.''\<rparr>, 1)
   \<and> executeWithFallback ''get_quote''
      (Some (\<lambda>s. (Throws \<lparr>provider = finnhub, code = NETWORK, message = ''Provider request failed: fetch failed'', status = None\<rparr>, Suc s)))
      (Some (\<lambda>s. (Resolves (None :: NormalizedQuote js_value option), Suc s))) (0 :: nat)
     = (\<lparr>data = None, source = None, warning = None,
         error = Some ''get_quote failed due to provider/network errors. Try again in a moment.''\<rparr>, 2)
   \<and> executeWithFallback ''get_quote''
      (Some (\<lambda>s. (Resolves (None :: NormalizedQuote js_value option), Suc s))) None (0 :: nat)
     = (\<lparr>data = None, source = None, warning = None,
         error = Some ''get_quote failed: symbol may be unsupported or unavailable for this request window.''\<rparr>, 1)"
  by (simp add: executeWithFallback_def fallback_attempt_def toUserErrorMessage_def truthy_def)

section \<open>Properties of the provider adapters\<close>

subsection \<open>Quotes\<close>





subsection \<open>Finnhub candles\<close>

lemma nullish_opt_index:
  "nullish (opt_index arr i) 0 =
     (case arr of Some xs \<Rightarrow> if i < length xs then xs ! i else 0 | None \<Rightarrow> (0::real))"
  by (simp add: nullish_def opt_index_def split: option.splits)

lemma finnhub_getCandles_ok:
  assumes "candle_s d = Some ''ok''" "candle_t d = Some ts" "ts \<noteq> []"
  shows "finnhub_getCandles sy interval t_from t_to d =
     Some (map (\<lambda>(index, ts).
               \<lparr>timestamp = ts,
                c_open = nullish (opt_index (candle_o d) index) 0,
                c_high = nullish (opt_index (candle_h d) index) 0,
                c_low = nullish (opt_index (candle_l d) index) 0,
                close = nullish (opt_index (candle_c d) index) 0,
                volume = nullish (opt_index (candle_v d) index) 0\<rparr>)
             (enumerate 0 ts))"
  using assms by (simp add: finnhub_getCandles_def)

text \<open>
  C10. For a Finnhub candle payload with status \<open>ok\<close> and a non-empty timestamp array,
  \<open>getCandles\<close> returns one candle per timestamp, in the order of the array and whatever
  \<open>from\<close> and \<open>to\<close> are, with \<open>0\<close> for every open, high, low, close or volume entry that
  the payload lacks; so a returned candle can have prices of \<open>0\<close>.
\<close>

theorem finnhub_candles_shape:
  "(candle_s d = Some ''ok'' \<and> candle_t d = Some ts \<and> ts \<noteq> [] \<longrightarrow>
      (\<exists>cs. finnhub_getCandles sy interval t_from t_to d = Some cs \<and>
            length cs = length ts \<and>
            (\<forall>i < length ts.
               timestamp (cs ! i) = ts ! i \<and>
               c_open (cs ! i) =
                 (case candle_o d of Some xs \<Rightarrow> if i < length xs then xs ! i else 0 | None \<Rightarrow> 0) \<and>
               c_high (cs ! i) =
                 (case candle_h d of Some xs \<Rightarrow> if i < length xs then xs ! i else 0 | None \<Rightarrow> 0) \<and>
               c_low (cs ! i) =
                 (case candle_l d of Some xs \<Rightarrow> if i < length xs then xs ! i else 0 | None \<Rightarrow> 0) \<and>
               close (cs ! i) =
                 (case candle_c d of Some xs \<Rightarrow> if i < length xs then xs ! i else 0 | None \<Rightarrow> 0) \<and>
               volume (cs ! i) =
                 (case candle_v d of Some xs \<Rightarrow> if i < length xs then xs ! i else 0 | None \<Rightarrow> 0)))) \<and>
   (\<exists>d' cs c. finnhub_getCandles sy interval t_from t_to d' = Some cs \<and> c \<in> set cs \<and>
      c_open c = 0 \<and> c_high c = 0 \<and> c_low c = 0 \<and> close c = 0)"
proof (intro conjI impI)
  assume h: "candle_s d = Some ''ok'' \<and> candle_t d = Some ts \<and> ts \<noteq> []"
  let ?f = "\<lambda>(index, ts).
               \<lparr>timestamp = ts,
                c_open = nullish (opt_index (candle_o d) index) 0,
                c_high = nullish (opt_index (candle_h d) index) 0,
                c_low = nullish (opt_index (candle_l d) index) 0,
                close = nullish (opt_index (candle_c d) index) 0,
                volume = nullish (opt_index (candle_v d) index) 0\<rparr>"
  from h have e: "finnhub_getCandles sy interval t_from t_to d = Some (map ?f (enumerate 0 ts))"
    by (intro finnhub_getCandles_ok) simp_all
  have n: "map ?f (enumerate 0 ts) ! i = ?f (i, ts ! i)" if "i < length ts" for i
    using that by (simp add: nth_enumerate_eq)
  show "\<exists>cs. finnhub_getCandles sy interval t_from t_to d = Some cs \<and>
            length cs = length ts \<and>
            (\<forall>i < length ts.
               timestamp (cs ! i) = ts ! i \<and>
               c_open (cs ! i) =
                 (case candle_o d of Some xs \<Rightarrow> if i < length xs then xs ! i else 0 | None \<Rightarrow> 0) \<and>
               c_high (cs ! i) =
                 (case candle_h d of Some xs \<Rightarrow> if i < length xs then xs ! i else 0 | None \<Rightarrow> 0) \<and>
               c_low (cs ! i) =
                 (case candle_l d of Some xs \<Rightarrow> if i < length xs then xs ! i else 0 | None \<Rightarrow> 0) \<and>
               close (cs ! i) =
                 (case candle_c d of Some xs \<Rightarrow> if i < length xs then xs ! i else 0 | None \<Rightarrow> 0) \<and>
               volume (cs ! i) =
                 (case candle_v d of Some xs \<Rightarrow> if i < length xs then xs ! i else 0 | None \<Rightarrow> 0))"
  proof (intro exI conjI allI impI)
    show "finnhub_getCandles sy interval t_from t_to d = Some (map ?f (enumerate 0 ts))"
      by (rule e)
    show "length (map ?f (enumerate 0 ts)) = length ts" by simp
  qed (simp_all only: n, simp_all add: nullish_opt_index)
next
  let ?d = "\<lparr>candle_c = None, candle_h = None, candle_l = None, candle_o = None,
       candle_t = Some [1700000000], candle_v = None, candle_s = Some ''ok''\<rparr>"
  let ?c = "\<lparr>timestamp = 1700000000, c_open = 0, c_high = 0, c_low = 0, close = 0, volume = 0\<rparr>"
  have "finnhub_getCandles sy interval t_from t_to ?d = Some [?c]"
    by (simp add: finnhub_getCandles_def enumerate_eq_zip nullish_def opt_index_def)
  moreover have "?c \<in> set [?c]" by simp
  moreover have "c_open ?c = 0 \<and> c_high ?c = 0 \<and> c_low ?c = 0 \<and> close ?c = 0" by simp
  ultimately show "\<exists>d' cs c. finnhub_getCandles sy interval t_from t_to d' = Some cs \<and> c \<in> set cs \<and>
      c_open c = 0 \<and> c_high c = 0 \<and> c_low c = 0 \<and> close c = 0"
    by blast
qed

text \<open>
  Two timestamps in descending order, outside the requested window in part, a short
  \<open>l\<close> array and no \<open>v\<close> array.
\<close>

theorem finnhub_candles_shape_witness:
  "finnhub_getCandles ''AAPL'' Int_D 1700000000 1700100000
      \<lparr>candle_c = Some [3, 5], candle_h = Some [4, 6], candle_l = Some [1], candle_o = Some [2, 4],
       candle_t = Some [1700086400, 1700000000], candle_v = None, candle_s = Some ''ok''\<rparr>
   = Some [\<lparr>timestamp = 1700086400, c_open = 2, c_high = 4, c_low = 1, close = 3, volume = 0\<rparr>,
           \<lparr>timestamp = 1700000000, c_open = 4, c_high = 6, c_low = 0, close = 5, volume = 0\<rparr>]"
proof -
  let ?d = "\<lparr>candle_c = Some [3, 5], candle_h = Some [4, 6], candle_l = Some [1], candle_o = Some [2, 4],
       candle_t = Some [1700086400, 1700000000], candle_v = None, candle_s = Some ''ok''\<rparr>"
  have h: "candle_s ?d = Some ''ok'' \<and> candle_t ?d = Some [1700086400, 1700000000]
      \<and> [1700086400, 1700000000 :: real] \<noteq> []"
    by simp
  from finnhub_candles_shape [of ?d "[1700086400, 1700000000]" "''AAPL''" Int_D 1700000000 1700100000,
      THEN conjunct1, rule_format, OF h]
  obtain cs where cs: "finnhub_getCandles ''AAPL'' Int_D 1700000000 1700100000 ?d = Some cs"
    and len: "length cs = 2"
    and el: "\<forall>i < 2.
               timestamp (cs ! i) = [1700086400, 1700000000] ! i \<and>
               c_open (cs ! i) = (if i < 2 then [2, 4] ! i else 0) \<and>
               c_high (cs ! i) = (if i < 2 then [4, 6] ! i else 0) \<and>
               c_low (cs ! i) = (if i < 1 then [1] ! i else 0) \<and>
               close (cs ! i) = (if i < 2 then [3, 5] ! i else 0) \<and>
               volume (cs ! i) = 0"
    by auto
  from len obtain a b where ab: "cs = [a, b]"
    by (cases cs; cases "tl cs"; cases "tl (tl cs)") auto
  have "a = \<lparr>timestamp = 1700086400, c_open = 2, c_high = 4, c_low = 1, close = 3, volume = 0\<rparr>"
    using el [rule_format, of 0] ab by (cases a) simp
  moreover
  have "b = \<lparr>timestamp = 1700000000, c_open = 4, c_high = 6, c_low = 0, close = 5, volume = 0\<rparr>"
    using el [rule_format, of 1] ab by (cases b) simp
  ultimately have "cs =
     [\<lparr>timestamp = 1700086400, c_open = 2, c_high = 4, c_low = 1, close = 3, volume = 0\<rparr>,
      \<lparr>timestamp = 1700000000, c_open = 4, c_high = 6, c_low = 0, close = 5, volume = 0\<rparr>]"
    using ab by simp
  with cs show ?thesis by simp
qed

subsection \<open>Alpha Vantage candles\<close>

lemma map_the_filter_Some: "map the (filter (\<lambda>item. item \<noteq> None) (map g xs)) = List.map_filter g xs"
  by (simp add: map_filter_def filter_map comp_def)

lemma alpha_getCandles_Some:
  assumes "alpha_getCandles jsTime jsNumber sy interval t_from t_to d = Some cs"
  shows "\<exists>entries. d (seriesKey interval) = Some entries \<and>
     cs = sort_key timestamp
            (filter (\<lambda>c. t_from \<le> timestamp c \<and> timestamp c \<le> t_to)
              (List.map_filter (\<lambda>(ts, vals). parseSeriesEntry jsTime jsNumber ts vals) entries))"
proof (cases "d (seriesKey interval)")
  case None
  with assms show ?thesis by (simp add: alpha_getCandles_def)
next
  case (Some entries)
  with assms have "cs = sort_key timestamp
            (filter (\<lambda>item. timestamp item \<ge> t_from \<and> timestamp item \<le> t_to)
              (map the
                (filter (\<lambda>item. item \<noteq> None)
                  (map (\<lambda>(ts, vals). parseSeriesEntry jsTime jsNumber ts vals) entries))))"
    by (simp add: alpha_getCandles_def)
  with Some show ?thesis by (simp only: map_the_filter_Some) simp
qed

text \<open>
  C7, as amended. A non-null result of \<open>AlphaVantageClient.getCandles\<close> is ascending by
  timestamp and holds exactly the parseable entries of the series whose timestamp lies in
  \<open>[from, to]\<close>, each as often as it occurs, in whatever order the upstream map lists
  them; entries that do not parse are dropped. It is strictly ascending when no two
  parseable entries of the series have the same timestamp in seconds.
\<close>

theorem alpha_candles_sorted_window:
  "alpha_getCandles jsTime jsNumber sy interval t_from t_to d = Some cs \<longrightarrow>
     (\<exists>entries. d (seriesKey interval) = Some entries \<and>
        sorted (map timestamp cs) \<and>
        mset cs = filter_mset (\<lambda>c. t_from \<le> timestamp c \<and> timestamp c \<le> t_to)
          (mset (List.map_filter (\<lambda>(ts, vals). parseSeriesEntry jsTime jsNumber ts vals) entries)) \<and>
        (distinct (map timestamp
            (List.map_filter (\<lambda>(ts, vals). parseSeriesEntry jsTime jsNumber ts vals) entries)) \<longrightarrow>
         sorted_wrt (<) (map timestamp cs)))"
proof
  assume "alpha_getCandles jsTime jsNumber sy interval t_from t_to d = Some cs"
  from alpha_getCandles_Some [OF this] obtain entries where
    e: "d (seriesKey interval) = Some entries"
    and cs: "cs = sort_key timestamp
            (filter (\<lambda>c. t_from \<le> timestamp c \<and> timestamp c \<le> t_to)
              (List.map_filter (\<lambda>(ts, vals). parseSeriesEntry jsTime jsNumber ts vals) entries))"
    by blast
  define parsed where
    "parsed = List.map_filter (\<lambda>(ts, vals). parseSeriesEntry jsTime jsNumber ts vals) entries"
  define kept where "kept = filter (\<lambda>c. t_from \<le> timestamp c \<and> timestamp c \<le> t_to) parsed"
  have cs': "cs = sort_key timestamp kept" by (simp add: cs kept_def parsed_def)
  have srt: "sorted (map timestamp cs)" unfolding cs' by (rule sorted_sort_key)
  have ms: "mset cs = filter_mset (\<lambda>c. t_from \<le> timestamp c \<and> timestamp c \<le> t_to) (mset parsed)"
    unfolding cs' kept_def by simp
  have strict: "sorted_wrt (<) (map timestamp cs)" if dist: "distinct (map timestamp parsed)"
  proof -
    from dist have "distinct (map timestamp kept)"
      unfolding kept_def by (rule distinct_map_filter)
    moreover have "mset (map timestamp cs) = mset (map timestamp kept)"
      unfolding cs' by simp
    ultimately have "distinct (map timestamp cs)"
      using mset_eq_imp_distinct_iff by blast
    with srt show ?thesis by (simp add: strict_sorted_iff)
  qed
  from e srt ms strict show "\<exists>entries. d (seriesKey interval) = Some entries \<and>
        sorted (map timestamp cs) \<and>
        mset cs = filter_mset (\<lambda>c. t_from \<le> timestamp c \<and> timestamp c \<le> t_to)
          (mset (List.map_filter (\<lambda>(ts, vals). parseSeriesEntry jsTime jsNumber ts vals) entries)) \<and>
        (distinct (map timestamp
            (List.map_filter (\<lambda>(ts, vals). parseSeriesEntry jsTime jsNumber ts vals) entries)) \<longrightarrow>
         sorted_wrt (<) (map timestamp cs))"
    unfolding parsed_def by blast
qed

text \<open>
  A daily series listed out of order, with a key that is no date, an entry without a close
  and an entry before the window; \<open>Date\<close> and \<open>Number\<close> are given by their values on the
  texts used.
\<close>

theorem alpha_candles_sorted_window_witness:
  "alpha_getCandles
      (map_of [(''2024-01-03'', 1704240000000), (''2024-01-01'', 1704067200000),
               (''2024-01-02'', 1704153600000), (''2024-01-04'', 1704326400000)])
      (map_of [(''1'', 1), (''2'', 2), (''3'', 3)]) ''IBM'' Int_D 1704153600 1704240000
      (map_of [(''Time Series (Daily)'',
         [(''2024-01-03'', map_of [(''1. open'', ''3''), (''2. high'', ''3''), (''3. low'', ''3''), (''4. close'', ''3''), (''5. volume'', ''3'')]),
          (''2024-01-01'', map_of [(''1. open'', ''1''), (''2. high'', ''1''), (''3. low'', ''1''), (''4. close'', ''1''), (''5. volume'', ''1'')]),
          (''not a date'', map_of [(''1. open'', ''1''), (''2. high'', ''1''), (''3. low'', ''1''), (''4. close'', ''1'')]),
          (''2024-01-04'', map_of [(''1. open'', ''1''), (''2. high'', ''1''), (''3. low'', ''1'')]),
          (''2024-01-02'', map_of [(''1. open'', ''2''), (''2. high'', ''2''), (''3. low'', ''2''), (''4. close'', ''2'')])])])
     = Some [\<lparr>timestamp = 1704153600, c_open = 2, c_high = 2, c_low = 2, close = 2, volume = 0\<rparr>,
             \<lparr>timestamp = 1704240000, c_open = 3, c_high = 3, c_low = 3, close = 3, volume = 3\<rparr>]
   \<and> sorted_wrt (<) (map timestamp
            [\<lparr>timestamp = 1704153600, c_open = 2, c_high = 2, c_low = 2, close = 2, volume = 0\<rparr>,
             \<lparr>timestamp = 1704240000, c_open = 3, c_high = 3, c_low = 3, close = 3, volume = 3\<rparr>])"
proof -
  let ?time = "map_of [(''2024-01-03'', 1704240000000 :: real), (''2024-01-01'', 1704067200000),
               (''2024-01-02'', 1704153600000), (''2024-01-04'', 1704326400000)]"
  let ?num = "map_of [(''1'', 1 :: real), (''2'', 2), (''3'', 3)]"
  let ?entries = "[(''2024-01-03'', map_of [(''1. open'', ''3''), (''2. high'', ''3''), (''3. low'', ''3''), (''4. close'', ''3''), (''5. volume'', ''3'')]),
          (''2024-01-01'', map_of [(''1. open'', ''1''), (''2. high'', ''1''), (''3. low'', ''1''), (''4. close'', ''1''), (''5. volume'', ''1'')]),
          (''not a date'', map_of [(''1. open'', ''1''), (''2. high'', ''1''), (''3. low'', ''1''), (''4. close'', ''1'')]),
          (''2024-01-04'', map_of [(''1. open'', ''1''), (''2. high'', ''1''), (''3. low'', ''1'')]),
          (''2024-01-02'', map_of [(''1. open'', ''2''), (''2. high'', ''2''), (''3. low'', ''2''), (''4. close'', ''2'')])]"
  let ?d = "map_of [(''Time Series (Daily)'', ?entries)]"
  let ?cs = "[\<lparr>timestamp = 1704153600, c_open = 2, c_high = 2, c_low = 2, close = 2, volume = 0\<rparr>,
             \<lparr>timestamp = 1704240000, c_open = 3, c_high = 3, c_low = 3, close = 3, volume = 3\<rparr>]"
  have r: "alpha_getCandles ?time ?num ''IBM'' Int_D 1704153600 1704240000 ?d = Some ?cs"
    by code_simp
  have en: "?d (seriesKey Int_D) = Some ?entries"
    by (simp add: seriesKey_def)
  have dist: "distinct (map timestamp
      (List.map_filter (\<lambda>(ts, vals). parseSeriesEntry ?time ?num ts vals) ?entries))"
    by code_simp
  from alpha_candles_sorted_window [of ?time ?num "''IBM''" Int_D 1704153600 1704240000 ?d ?cs] r
  obtain entries where 1: "?d (seriesKey Int_D) = Some entries"
    and 2: "distinct (map timestamp
            (List.map_filter (\<lambda>(ts, vals). parseSeriesEntry ?time ?num ts vals) entries)) \<longrightarrow>
         sorted_wrt (<) (map timestamp ?cs)"
    by blast
  from 1 en have "entries = ?entries" by (simp only: option.inject)
  with 2 dist have "sorted_wrt (<) (map timestamp ?cs)" by blast
  with r show ?thesis by blast
qed

text \<open>
  C7 as the specification states it fails: two keys of the map that differ in the
  milliseconds only get the same timestamp from \<^verbatim>\<open>Math.floor(ms / 1000)\<close>, both entries are
  kept, and the result is not strictly ascending.
\<close>

theorem alpha_candles_counterexample:
  "alpha_getCandles
      (map_of [(''2024-01-02T14:30:00.250Z'', 1704205800250), (''2024-01-02T14:30:00.750Z'', 1704205800750)])
      (map_of [(''1'', 1), (''2'', 2)]) ''IBM'' Int_60 1704200000 1704210000
      (map_of [(''Time Series (60min)'',
         [(''2024-01-02T14:30:00.250Z'',
             map_of [(''1. open'', ''1''), (''2. high'', ''1''), (''3. low'', ''1''), (''4. close'', ''1''), (''5. volume'', ''1'')]),
          (''2024-01-02T14:30:00.750Z'',
             map_of [(''1. open'', ''2''), (''2. high'', ''2''), (''3. low'', ''2''), (''4. close'', ''2''), (''5. volume'', ''2'')])])])
     = Some [\<lparr>timestamp = 1704205800, c_open = 1, c_high = 1, c_low = 1, close = 1, volume = 1\<rparr>,
             \<lparr>timestamp = 1704205800, c_open = 2, c_high = 2, c_low = 2, close = 2, volume = 2\<rparr>]
   \<and> \<not> sorted_wrt (<) (map timestamp
            [\<lparr>timestamp = 1704205800, c_open = 1, c_high = 1, c_low = 1, close = 1, volume = 1\<rparr>,
             \<lparr>timestamp = 1704205800, c_open = 2, c_high = 2, c_low = 2, close = 2, volume = 2\<rparr>])"
  by code_simp

end
